theory Spec2Isabelle
  imports Complex_Main
begin

section \<open>The database of main.py\<close>

text \<open>
  The program keeps its whole state in three SQLite tables, created by \<open>init_db\<close>:
  \<^item> \<open>canvas (x, y, color, last_user_id, last_modified)\<close>, primary key \<open>(x, y)\<close>;
  \<^item> \<open>users (user_id, username, paint_balance DEFAULT 0, created_at)\<close>, primary key
    \<open>user_id\<close>;
  \<^item> \<open>review_proofs (user_id, card_id, timestamp)\<close>, primary key the whole triple.

  A table whose rows are read in bulk (\<open>canvas\<close>) or only appended to and searched
  (\<open>review_proofs\<close>) is the list of its rows; \<open>users\<close>, always addressed by its primary
  key, is a map from the key to the rest of the row. Python integers are \<open>int\<close>; a value
  of \<open>time.time()\<close> is a \<open>real\<close>; a timestamp sent by a client is a Python float, which
  may be infinite or NaN.
  Each handler opens a connection, works, and commits once at its end; a handler that raises
  has committed nothing. A handler is a function that takes the database and returns the
  database it leaves behind together with its response or its exception. The handlers are
  plain \<open>def\<close> functions, which the framework serves from a pool of threads, each request
  on a connection of its own: besides the handlers as whole steps, \<open>paint_pixel\<close> is also
  given as the two steps of its reading and its writing statements, and a schedule may put
  steps of other requests between them.
\<close>

datatype error =
    HTTPException int string   \<comment> \<open>\<open>status_code\<close>, \<open>detail\<close>\<close>
  | IntegrityError             \<comment> \<open>\<open>sqlite3.IntegrityError\<close>: primary key already present\<close>
  | OverflowError              \<comment> \<open>Python int too large to convert to SQLite INTEGER\<close>

record canvas_row =
  row_x :: int
  row_y :: int
  row_color :: int
  last_user_id :: "string option"
  last_modified :: real

record user_row =
  username :: string
  paint_balance :: int
  created_at :: real

text \<open>A Python float: a number, an infinity, or NaN.\<close>

datatype pyfloat = Finite real | PosInf | NegInf | NaN

text \<open>
  A row \<open>(user_id, card_id, timestamp)\<close> of \<open>review_proofs\<close>; the REAL column holds a
  float or NULL (\<open>None\<close>).
\<close>

type_synonym proof_row = "string \<times> int \<times> pyfloat option"

type_synonym ReviewProof = "int \<times> pyfloat"   \<comment> \<open>\<open>(card_id, timestamp)\<close>\<close>

record db =
  canvas :: "canvas_row list"
  users :: "string \<rightharpoonup> user_row"
  review_proofs :: "proof_row list"

definition empty_db :: db where
  "empty_db = \<lparr>canvas = [], users = Map.empty, review_proofs = []\<rparr>"

subsection \<open>\<open>init_db\<close>\<close>

definition blank_row :: "int \<times> int \<Rightarrow> canvas_row" where
  "blank_row p =
     \<lparr>row_x = fst p, row_y = snd p, row_color = 0, last_user_id = None, last_modified = 0\<rparr>"

text \<open>\<open>for x in range(32): for y in range(32): INSERT ... (x, y, 0, None, 0)\<close>\<close>

definition init_rows :: "canvas_row list" where
  "init_rows = map blank_row (List.product [0..31] [0..31])"

definition init_db :: "db \<Rightarrow> db" where
  "init_db s =
     (if int (length (canvas s)) = 0 then s\<lparr>canvas := canvas s @ init_rows\<rparr> else s)"

subsection \<open>SQL statements used by the handlers\<close>

text \<open>\<open>UPDATE canvas SET color = ?, last_user_id = ?, last_modified = ? WHERE x = ? AND y = ?\<close>\<close>

definition update_canvas ::
  "canvas_row list \<Rightarrow> int \<Rightarrow> string \<Rightarrow> real \<Rightarrow> int \<Rightarrow> int \<Rightarrow> canvas_row list" where
  "update_canvas rows color user_id timestamp x y =
     map (\<lambda>r. if row_x r = x \<and> row_y r = y
              then r\<lparr>row_color := color, last_user_id := Some user_id,
                     last_modified := timestamp\<rparr>
              else r) rows"

text \<open>\<open>UPDATE users SET paint_balance = paint_balance + ? WHERE user_id = ?\<close>\<close>

definition update_balance ::
  "(string \<rightharpoonup> user_row) \<Rightarrow> int \<Rightarrow> string \<Rightarrow> (string \<rightharpoonup> user_row)" where
  "update_balance us d user_id =
     (case us user_id of
        None \<Rightarrow> us
      | Some r \<Rightarrow> us(user_id \<mapsto> r\<lparr>paint_balance := paint_balance r + d\<rparr>))"

text \<open>\<open>SELECT ... FROM canvas WHERE x = ? AND y = ?\<close>, \<open>fetchone()\<close>\<close>

definition select_cell :: "db \<Rightarrow> int \<Rightarrow> int \<Rightarrow> canvas_row option" where
  "select_cell s x y = find (\<lambda>r. row_x r = x \<and> row_y r = y) (canvas s)"

text \<open>
  Binding parameters. A Python float is bound as a double, and SQLite stores a NaN as NULL.
  A Python int is bound as a signed 64-bit integer; outside that range the \<open>execute\<close> call
  raises \<open>OverflowError\<close>.
\<close>

definition bind_real :: "pyfloat \<Rightarrow> pyfloat option" where
  "bind_real t = (if t = NaN then None else Some t)"

definition fits_int64 :: "int \<Rightarrow> bool" where
  "fits_int64 n \<longleftrightarrow> - (2 ^ 63) \<le> n \<and> n < 2 ^ 63"

text \<open>The comparison \<open>=\<close> of SQL in a WHERE clause: with a NULL operand it is not true.\<close>

definition sql_eq :: "pyfloat option \<Rightarrow> pyfloat option \<Rightarrow> bool" where
  "sql_eq a b \<longleftrightarrow> a \<noteq> None \<and> b \<noteq> None \<and> a = b"

text \<open>
  \<open>SELECT 1 FROM review_proofs WHERE user_id = ? AND card_id = ? AND timestamp = ?\<close>,
  \<open>fetchone()\<close> is a row.
\<close>

definition proof_known :: "proof_row list \<Rightarrow> string \<Rightarrow> int \<Rightarrow> pyfloat \<Rightarrow> bool" where
  "proof_known tbl user_id card_id timestamp =
     list_ex (\<lambda>row. fst row = user_id \<and> fst (snd row) = card_id \<and>
                    sql_eq (snd (snd row)) (bind_real timestamp)) tbl"

text \<open>The row that \<open>INSERT INTO review_proofs ... VALUES (?, ?, ?)\<close> adds.\<close>

definition stored :: "string \<Rightarrow> ReviewProof \<Rightarrow> proof_row" where
  "stored user_id prf = (user_id, fst prf, bind_real (snd prf))"

subsection \<open>\<open>get_canvas\<close>\<close>

definition place :: "canvas_row \<Rightarrow> int list \<Rightarrow> int list" where
  "place row grid =
     (let idx = row_y row * 32 + row_x row
      in if 0 \<le> idx \<and> idx < 1024 then grid[nat idx := row_color row] else grid)"

definition get_canvas :: "db \<Rightarrow> int list" where
  "get_canvas s = fold place (canvas s) (replicate (32 * 32) 0)"

subsection \<open>\<open>get_pixel_details\<close>\<close>

record pixel_details =
  pd_x :: int
  pd_y :: int
  pd_color :: int
  pd_last_user_id :: "string option"
  pd_username :: "string option"
  pd_last_modified :: real

text \<open>
  The response is \<open>Inr (Some d)\<close> for the pixel's details and \<open>Inr None\<close> for the body
  \<open>{"error": "Pixel not found"}\<close>. The LEFT JOIN leaves \<open>username\<close> NULL when the cell
  has no editor or the editor is not in \<open>users\<close>.
\<close>

definition get_pixel_details :: "db \<Rightarrow> int \<Rightarrow> int \<Rightarrow> error + pixel_details option" where
  "get_pixel_details s x y =
     (if \<not> (0 \<le> x \<and> x < 32 \<and> 0 \<le> y \<and> y < 32)
      then Inl (HTTPException 400 ''Coordinates out of bounds'')
      else case select_cell s x y of
             Some row \<Rightarrow>
               Inr (Some \<lparr>pd_x = row_x row, pd_y = row_y row, pd_color = row_color row,
                          pd_last_user_id = last_user_id row,
                          pd_username =
                            (case last_user_id row of
                               None \<Rightarrow> None
                             | Some u \<Rightarrow> map_option username (users s u)),
                          pd_last_modified = last_modified row\<rparr>)
           | None \<Rightarrow> Inr None)"

subsection \<open>\<open>paint_pixel\<close>\<close>

text \<open>
  \<open>now\<close> is the value of \<open>time.time()\<close> read by the handler. The response carries
  \<open>(x, y, color)\<close>.
\<close>

definition paint_pixel ::
  "db \<Rightarrow> real \<Rightarrow> int \<Rightarrow> int \<Rightarrow> int \<Rightarrow> string \<Rightarrow> db \<times> (error + int \<times> int \<times> int)" where
  "paint_pixel s now x y color user_id =
     (if \<not> (0 \<le> x \<and> x < 32 \<and> 0 \<le> y \<and> y < 32)
      then (s, Inl (HTTPException 400 ''Coordinates out of bounds''))
      else if \<not> (0 \<le> color \<and> color < 16)
      then (s, Inl (HTTPException 400 ''Invalid color index (0-15)''))
      else case users s user_id of
             None \<Rightarrow> (s, Inl (HTTPException 404 ''User ID not found. Register first.''))
           | Some row \<Rightarrow>
               if paint_balance row < 1
               then (s, Inl (HTTPException 403 ''Not enough paint drops. Study more cards!''))
               else (s\<lparr>canvas := update_canvas (canvas s) color user_id now x y,
                       users := update_balance (users s) (- 1) user_id\<rparr>,
                     Inr (x, y, color)))"

text \<open>
  The handler in its two parts. The first part validates the request and reads and checks
  the balance (a SELECT, which opens no transaction); it gives the exception raised, if any.
  The second part reads the clock and runs the two UPDATE statements and the commit.
\<close>

definition paint_pixel_check :: "db \<Rightarrow> int \<Rightarrow> int \<Rightarrow> int \<Rightarrow> string \<Rightarrow> error option" where
  "paint_pixel_check s x y color user_id =
     (if \<not> (0 \<le> x \<and> x < 32 \<and> 0 \<le> y \<and> y < 32)
      then Some (HTTPException 400 ''Coordinates out of bounds'')
      else if \<not> (0 \<le> color \<and> color < 16)
      then Some (HTTPException 400 ''Invalid color index (0-15)'')
      else case users s user_id of
             None \<Rightarrow> Some (HTTPException 404 ''User ID not found. Register first.'')
           | Some row \<Rightarrow>
               if paint_balance row < 1
               then Some (HTTPException 403 ''Not enough paint drops. Study more cards!'')
               else None)"

definition paint_pixel_write :: "db \<Rightarrow> real \<Rightarrow> int \<Rightarrow> int \<Rightarrow> int \<Rightarrow> string \<Rightarrow> db" where
  "paint_pixel_write s now x y color user_id =
     s\<lparr>canvas := update_canvas (canvas s) color user_id now x y,
       users := update_balance (users s) (- 1) user_id\<rparr>"

subsection \<open>\<open>register_user\<close>\<close>

text \<open>
  \<open>new_id\<close> is the value of \<open>str(uuid.uuid4())\<close> and \<open>now\<close> that of \<open>time.time()\<close>.
  The INSERT names no \<open>paint_balance\<close>, so the column takes its default 0; on a primary key
  that is already present the INSERT raises.
\<close>

definition register_user ::
  "db \<Rightarrow> string \<Rightarrow> real \<Rightarrow> string \<Rightarrow> db \<times> (error + string \<times> string)" where
  "register_user s new_id now name =
     (case users s new_id of
        Some _ \<Rightarrow> (s, Inl IntegrityError)
      | None \<Rightarrow>
          (s\<lparr>users := (users s)(new_id \<mapsto>
                \<lparr>username = name, paint_balance = 0, created_at = now\<rparr>)\<rparr>,
           Inr (new_id, name)))"

subsection \<open>\<open>submit_reviews\<close>\<close>

text \<open>
  One turn of the loop over \<open>submission.proofs\<close>, on the pair of the \<open>review_proofs\<close>
  table as the handler's connection sees it and \<open>new_proofs_count\<close>. The SELECT binds the
  card identifier first, so a card identifier outside 64 bits raises before anything else
  happens in the turn.
\<close>

fun record_proof ::
  "string \<Rightarrow> ReviewProof \<Rightarrow> proof_row list \<times> int \<Rightarrow> error + proof_row list \<times> int" where
  "record_proof user_id (card_id, timestamp) (tbl, new_proofs_count) =
     (if \<not> fits_int64 card_id then Inl OverflowError
      else if proof_known tbl user_id card_id timestamp
      then Inr (tbl, new_proofs_count)
      else Inr (tbl @ [stored user_id (card_id, timestamp)], new_proofs_count + 1))"

text \<open>The loop: an exception in a turn ends it.\<close>

fun record_proofs ::
  "string \<Rightarrow> ReviewProof list \<Rightarrow> proof_row list \<times> int \<Rightarrow> error + proof_row list \<times> int" where
  "record_proofs user_id [] acc = Inr acc"
| "record_proofs user_id (prf # proofs) acc =
     (case record_proof user_id prf acc of
        Inl e \<Rightarrow> Inl e
      | Inr acc' \<Rightarrow> record_proofs user_id proofs acc')"

text \<open>
  The response carries \<open>(new_proofs, paint_awarded)\<close>. When the loop raises, the handler
  never reaches \<open>conn.commit()\<close>: the rows it inserted are rolled back with its connection
  and the database is the one before the call.
\<close>

definition submit_reviews ::
  "db \<Rightarrow> string \<Rightarrow> ReviewProof list \<Rightarrow> db \<times> (error + int \<times> int)" where
  "submit_reviews s user_id proofs =
     (case users s user_id of
        None \<Rightarrow> (s, Inl (HTTPException 404 ''User not found''))
      | Some row \<Rightarrow>
          (case record_proofs user_id proofs (review_proofs s, 0) of
             Inl e \<Rightarrow> (s, Inl e)
           | Inr acc \<Rightarrow>
               (let new_proofs_count = snd acc;
                    paint_awarded = new_proofs_count div 10;
                    us = (if paint_awarded > 0
                          then update_balance (users s) paint_awarded user_id
                          else users s)
                in (s\<lparr>users := us, review_proofs := fst acc\<rparr>,
                    Inr (new_proofs_count, paint_awarded)))))"

subsection \<open>\<open>get_balance\<close> and \<open>get_user\<close>\<close>

definition get_balance :: "db \<Rightarrow> string \<Rightarrow> error + string \<times> int" where
  "get_balance s user_id =
     (case users s user_id of
        Some row \<Rightarrow> Inr (user_id, paint_balance row)
      | None \<Rightarrow> Inl (HTTPException 404 ''User not found''))"

definition get_user :: "db \<Rightarrow> string \<Rightarrow> error + string \<times> string \<times> real" where
  "get_user s user_id =
     (case users s user_id of
        Some row \<Rightarrow> Inr (user_id, username row, created_at row)
      | None \<Rightarrow> Inl (HTTPException 404 ''User not found''))"

subsection \<open>Runs of the service\<close>

text \<open>
  A request, with the values the handler reads from its environment. \<open>InitDb\<close> is a restart
  of the process, which runs \<open>init_db\<close> again on the database it finds. The four GET
  handlers never write.
\<close>

datatype request =
    InitDb
  | Register string real string
  | Paint real int int int string
  | SubmitProofs string "ReviewProof list"
  | GetCanvas
  | GetPixelDetails int int
  | GetBalance string
  | GetUser string

fun handle :: "request \<Rightarrow> db \<Rightarrow> db" where
  "handle InitDb s = init_db s"
| "handle (Register new_id now name) s = fst (register_user s new_id now name)"
| "handle (Paint now x y color user_id) s = fst (paint_pixel s now x y color user_id)"
| "handle (SubmitProofs user_id proofs) s = fst (submit_reviews s user_id proofs)"
| "handle GetCanvas s = s"
| "handle (GetPixelDetails x y) s = s"
| "handle (GetBalance user_id) s = s"
| "handle (GetUser user_id) s = s"

text \<open>
  The database after a sequence of requests served one after the other, each handler
  running to its end before the next one starts, from a fresh database file.
\<close>

definition run :: "request list \<Rightarrow> db" where
  "run reqs = fold handle reqs (init_db empty_db)"

subsection \<open>Interleaved paints\<close>

text \<open>
  A schedule of the service when requests overlap. \<open>Whole\<close> is a handler that runs without
  another request in between. \<open>PaintSelect\<close> is the first part of a \<open>paint_pixel\<close> call:
  when its checks pass, the call is in flight, and it remembers nothing but its own request.
  \<open>PaintUpdate\<close> is the second part of a call in flight, with the clock value it reads.
\<close>

datatype step =
    Whole request
  | PaintSelect int int int string
  | PaintUpdate real int int int string

record service =
  database :: db
  in_flight :: "(int \<times> int \<times> int \<times> string) list"

fun exec :: "step \<Rightarrow> service \<Rightarrow> service" where
  "exec (Whole req) v = v\<lparr>database := handle req (database v)\<rparr>"
| "exec (PaintSelect x y color user_id) v =
     (case paint_pixel_check (database v) x y color user_id of
        Some e \<Rightarrow> v
      | None \<Rightarrow> v\<lparr>in_flight := (x, y, color, user_id) # in_flight v\<rparr>)"
| "exec (PaintUpdate now x y color user_id) v =
     (if (x, y, color, user_id) \<in> set (in_flight v)
      then v\<lparr>database := paint_pixel_write (database v) now x y color user_id,
             in_flight := remove1 (x, y, color, user_id) (in_flight v)\<rparr>
      else v)"

definition interleaved :: "step list \<Rightarrow> service" where
  "interleaved steps = fold exec steps \<lparr>database = init_db empty_db, in_flight = []\<rparr>"

subsection \<open>Invariants of the tables\<close>

text \<open>The primary key of a \<open>canvas\<close> row.\<close>

definition cell_key :: "canvas_row \<Rightarrow> int \<times> int" where
  "cell_key r = (row_x r, row_y r)"

text \<open>
  The \<open>canvas\<close> table holds the rows that \<open>init_db\<close> inserted, in that order and with
  their keys, and every colour is a palette index.
\<close>

definition canvas_ok :: "db \<Rightarrow> bool" where
  "canvas_ok s \<longleftrightarrow>
     map cell_key (canvas s) = List.product [0..31] [0..31] \<and>
     (\<forall>r\<in>set (canvas s). 0 \<le> row_color r \<and> row_color r < 16)"

definition balances_ok :: "db \<Rightarrow> bool" where
  "balances_ok s \<longleftrightarrow>
     (\<forall>user_id row. users s user_id = Some row \<longrightarrow> 0 \<le> paint_balance row)"

subsection \<open>Example requests\<close>

definition example_proofs :: "int \<Rightarrow> int \<Rightarrow> ReviewProof list" where
  "example_proofs i j = map (\<lambda>card_id. (card_id, Finite 1700000000)) [i..j]"

definition nan_proofs :: "ReviewProof list" where
  "nan_proofs = map (\<lambda>card_id. (card_id, NaN)) [1..10]"

definition reqs_alice :: "request list" where
  "reqs_alice = [Register ''u1'' 100 ''alice'']"

definition reqs_funded :: "request list" where
  "reqs_funded = reqs_alice @ [SubmitProofs ''u1'' (example_proofs 1 10)]"

definition reqs_painted :: "request list" where
  "reqs_painted = reqs_funded @ [Paint 200 3 4 5 ''u1'']"

section \<open>Auxiliary lemmas\<close>

subsection \<open>The loop of \<open>submit_reviews\<close>\<close>

lemma proof_known_append:
  "proof_known (tbl @ rows) user_id card_id timestamp \<longleftrightarrow>
   proof_known tbl user_id card_id timestamp \<or> proof_known rows user_id card_id timestamp"
  by (simp add: proof_known_def)

lemma proof_known_stored:
  "snd p \<noteq> NaN \<Longrightarrow> proof_known [stored user_id p] user_id (fst p) (snd p)"
  by (simp add: proof_known_def stored_def sql_eq_def bind_real_def)

lemma proof_known_storedD:
  "proof_known [stored user_id a] user_id (fst p) (snd p) \<Longrightarrow> a = p"
  by (auto simp add: proof_known_def stored_def sql_eq_def bind_real_def prod_eq_iff
           split: if_splits)

lemma proof_known_nan: "\<not> proof_known tbl user_id card_id NaN"
  by (simp add: proof_known_def sql_eq_def bind_real_def list_ex_iff)

lemma record_proof_overflow:
  "\<not> fits_int64 (fst p) \<Longrightarrow> record_proof user_id p acc = Inl OverflowError"
  by (cases p; cases acc) simp

lemma record_proof_known:
  "fits_int64 (fst p) \<Longrightarrow> proof_known (fst acc) user_id (fst p) (snd p) \<Longrightarrow>
   record_proof user_id p acc = Inr acc"
  by (cases p; cases acc) simp

lemma record_proof_fresh:
  "fits_int64 (fst p) \<Longrightarrow> \<not> proof_known (fst acc) user_id (fst p) (snd p) \<Longrightarrow>
   record_proof user_id p acc = Inr (fst acc @ [stored user_id p], snd acc + 1)"
  by (cases p; cases acc) simp

lemma record_proof_cases:
  assumes "record_proof user_id p acc = Inr acc'"
  shows "fits_int64 (fst p) \<and>
         (acc' = acc \<and> proof_known (fst acc) user_id (fst p) (snd p) \<or>
          acc' = (fst acc @ [stored user_id p], snd acc + 1) \<and>
            \<not> proof_known (fst acc) user_id (fst p) (snd p))"
  using assms by (cases p; cases acc) (auto split: if_splits)

lemma record_proof_keeps:
  assumes "record_proof user_id p acc = Inr acc'"
    and "proof_known (fst acc) v c t"
  shows "proof_known (fst acc') v c t"
  using record_proof_cases [OF assms(1)] assms(2) by (auto simp add: proof_known_append)

lemma record_proof_records:
  assumes "record_proof user_id p acc = Inr acc'" and "snd p \<noteq> NaN"
  shows "proof_known (fst acc') user_id (fst p) (snd p)"
  using record_proof_cases [OF assms(1)] proof_known_stored [OF assms(2), of user_id]
  by (auto simp add: proof_known_append)

lemma record_proof_count_mono:
  "record_proof user_id p acc = Inr acc' \<Longrightarrow> snd acc \<le> snd acc'"
  using record_proof_cases [of user_id p acc acc'] by auto

lemma record_proofs_keeps:
  "record_proofs user_id ps acc = Inr acc' \<Longrightarrow> proof_known (fst acc) v c t \<Longrightarrow>
   proof_known (fst acc') v c t"
proof (induction ps arbitrary: acc)
  case Nil
  then show ?case by simp
next
  case (Cons a ps)
  from Cons.prems(1) obtain acc1 where a: "record_proof user_id a acc = Inr acc1"
    and r: "record_proofs user_id ps acc1 = Inr acc'"
    by (auto split: sum.splits)
  have "proof_known (fst acc1) v c t"
    using a Cons.prems(2) by (rule record_proof_keeps)
  with r show ?case by (rule Cons.IH)
qed

lemma record_proofs_records:
  "record_proofs user_id ps acc = Inr acc' \<Longrightarrow> p \<in> set ps \<Longrightarrow> snd p \<noteq> NaN \<Longrightarrow>
   proof_known (fst acc') user_id (fst p) (snd p)"
proof (induction ps arbitrary: acc)
  case Nil
  then show ?case by simp
next
  case (Cons a ps)
  from Cons.prems(1) obtain acc1 where a: "record_proof user_id a acc = Inr acc1"
    and r: "record_proofs user_id ps acc1 = Inr acc'"
    by (auto split: sum.splits)
  show ?case
  proof (cases "p = a")
    case True
    have "proof_known (fst acc1) user_id (fst p) (snd p)"
      using a Cons.prems(3) True record_proof_records by blast
    with r show ?thesis by (rule record_proofs_keeps)
  next
    case False
    then have "p \<in> set ps" using Cons.prems(2) by simp
    with r show ?thesis using Cons.prems(3) by (rule Cons.IH)
  qed
qed

lemma record_proofs_count_nonneg:
  "record_proofs user_id ps acc = Inr acc' \<Longrightarrow> 0 \<le> snd acc \<Longrightarrow> 0 \<le> snd acc'"
proof (induction ps arbitrary: acc)
  case Nil
  then show ?case by simp
next
  case (Cons a ps)
  from Cons.prems(1) obtain acc1 where a: "record_proof user_id a acc = Inr acc1"
    and r: "record_proofs user_id ps acc1 = Inr acc'"
    by (auto split: sum.splits)
  have "0 \<le> snd acc1"
    using record_proof_count_mono [OF a] Cons.prems(2) by linarith
  with r show ?case by (rule Cons.IH)
qed

lemma record_proofs_total:
  "\<forall>p\<in>set ps. fits_int64 (fst p) \<Longrightarrow> \<exists>acc'. record_proofs user_id ps acc = Inr acc'"
proof (induction ps arbitrary: acc)
  case Nil
  then show ?case by simp
next
  case (Cons a ps)
  have "fits_int64 (fst a)" using Cons.prems by simp
  then obtain acc1 where a: "record_proof user_id a acc = Inr acc1"
    using record_proof_known [of a acc user_id] record_proof_fresh [of a acc user_id]
    by blast
  moreover have "\<exists>acc'. record_proofs user_id ps acc1 = Inr acc'"
    using Cons.prems by (intro Cons.IH) simp
  ultimately show ?case by simp
qed

lemma record_proofs_overflow:
  "p \<in> set ps \<Longrightarrow> \<not> fits_int64 (fst p) \<Longrightarrow> record_proofs user_id ps acc = Inl OverflowError"
proof (induction ps arbitrary: acc)
  case Nil
  then show ?case by simp
next
  case (Cons a ps)
  show ?case
  proof (cases "record_proof user_id a acc")
    case (Inl e)
    then have "e = OverflowError"
      by (cases a; cases acc) (auto split: if_splits)
    with Inl show ?thesis by simp
  next
    case (Inr acc1)
    then have "fits_int64 (fst a)"
      using record_proof_cases by blast
    then have "p \<in> set ps" using Cons.prems by auto
    then have "record_proofs user_id ps acc1 = Inl OverflowError"
      using Cons.prems(2) by (rule Cons.IH)
    with Inr show ?thesis by simp
  qed
qed

lemma record_proofs_known:
  "\<forall>p\<in>set ps. fits_int64 (fst p) \<and> proof_known (fst acc) user_id (fst p) (snd p) \<Longrightarrow>
   record_proofs user_id ps acc = Inr acc"
  by (induction ps arbitrary: acc) (simp_all add: record_proof_known)

lemma record_proofs_fresh:
  "distinct ps \<Longrightarrow>
   \<forall>p\<in>set ps. fits_int64 (fst p) \<and> \<not> proof_known (fst acc) user_id (fst p) (snd p) \<Longrightarrow>
   record_proofs user_id ps acc =
     Inr (fst acc @ map (stored user_id) ps, snd acc + int (length ps))"
proof (induction ps arbitrary: acc)
  case Nil
  then show ?case by simp
next
  case (Cons a ps)
  have step: "record_proof user_id a acc = Inr (fst acc @ [stored user_id a], snd acc + 1)"
    using Cons.prems(2) by (simp add: record_proof_fresh)
  have "\<forall>p\<in>set ps. fits_int64 (fst p) \<and>
          \<not> proof_known (fst (fst acc @ [stored user_id a], snd acc + 1)) user_id (fst p) (snd p)"
  proof
    fix p assume p: "p \<in> set ps"
    then have "a \<noteq> p" using Cons.prems(1) by auto
    then have "\<not> proof_known [stored user_id a] user_id (fst p) (snd p)"
      using proof_known_storedD by blast
    then show "fits_int64 (fst p) \<and>
          \<not> proof_known (fst (fst acc @ [stored user_id a], snd acc + 1)) user_id (fst p) (snd p)"
      using Cons.prems(2) p by (simp add: proof_known_append)
  qed
  moreover have "distinct ps" using Cons.prems(1) by simp
  ultimately have
    "record_proofs user_id ps (fst acc @ [stored user_id a], snd acc + 1) =
       Inr (fst (fst acc @ [stored user_id a], snd acc + 1) @ map (stored user_id) ps,
            snd (fst acc @ [stored user_id a], snd acc + 1) + int (length ps))"
    by (intro Cons.IH)
  then show ?case by (simp add: step)
qed

lemma submit_reviews_fresh:
  assumes "users s user_id = Some row"
    and "distinct ps"
    and "\<forall>p\<in>set ps. fits_int64 (fst p) \<and>
           \<not> proof_known (review_proofs s) user_id (fst p) (snd p)"
  shows "submit_reviews s user_id ps =
           (s\<lparr>users := (if int (length ps) div 10 > 0
                         then update_balance (users s) (int (length ps) div 10) user_id
                         else users s),
               review_proofs := review_proofs s @ map (stored user_id) ps\<rparr>,
            Inr (int (length ps), int (length ps) div 10))"
proof -
  have "record_proofs user_id ps (review_proofs s, 0) =
          Inr (review_proofs s @ map (stored user_id) ps, int (length ps))"
    using record_proofs_fresh [OF assms(2), of "(review_proofs s, 0)" user_id] assms(3)
    by simp
  then show ?thesis
    using assms(1) by (simp add: submit_reviews_def Let_def)
qed

text \<open>The only exception of the loop is the overflow, and then the database is as before.\<close>

lemma submit_reviews_overflow:
  assumes "users s user_id = Some row" and "p \<in> set ps" and "\<not> fits_int64 (fst p)"
  shows "submit_reviews s user_id ps = (s, Inl OverflowError)"
  using assms by (simp add: submit_reviews_def record_proofs_overflow)

subsection \<open>Runs\<close>

lemma init_db_empty_db:
  "init_db empty_db = \<lparr>canvas = init_rows, users = Map.empty, review_proofs = []\<rparr>"
  by (simp add: init_db_def empty_db_def)

lemma run_snoc: "run (reqs @ [req]) = handle req (run reqs)"
  by (simp add: run_def)

lemma run_alice:
  "run reqs_alice =
     \<lparr>canvas = init_rows,
      users = [''u1'' \<mapsto> \<lparr>username = ''alice'', paint_balance = 0, created_at = 100\<rparr>],
      review_proofs = []\<rparr>"
  by (simp add: reqs_alice_def run_def register_user_def init_db_empty_db)

lemma run_funded:
  "run reqs_funded =
     \<lparr>canvas = init_rows,
      users = [''u1'' \<mapsto> \<lparr>username = ''alice'', paint_balance = 1, created_at = 100\<rparr>],
      review_proofs = map (stored ''u1'') (example_proofs 1 10)\<rparr>"
  unfolding reqs_funded_def run_snoc run_alice
  by (simp add: submit_reviews_def example_proofs_def update_balance_def Let_def upto_rec1
        fits_int64_def proof_known_def stored_def sql_eq_def bind_real_def)

lemma run_painted:
  "run reqs_painted =
     \<lparr>canvas = update_canvas init_rows 5 ''u1'' 200 3 4,
      users = [''u1'' \<mapsto> \<lparr>username = ''alice'', paint_balance = 0, created_at = 100\<rparr>],
      review_proofs = map (stored ''u1'') (example_proofs 1 10)\<rparr>"
  unfolding reqs_painted_def run_snoc run_funded
  by (simp add: paint_pixel_def update_balance_def)

subsection \<open>The two parts of \<open>paint_pixel\<close> and serial schedules\<close>

lemma paint_pixel_two_parts:
  "paint_pixel s now x y color user_id =
     (case paint_pixel_check s x y color user_id of
        Some e \<Rightarrow> (s, Inl e)
      | None \<Rightarrow> (paint_pixel_write s now x y color user_id, Inr (x, y, color)))"
  by (simp add: paint_pixel_def paint_pixel_check_def paint_pixel_write_def
           split: option.splits)

lemma fold_exec_Whole:
  "fold exec (map Whole reqs) v = v\<lparr>database := fold handle reqs (database v)\<rparr>"
  by (induction reqs arbitrary: v) simp_all

lemma interleaved_serial:
  "interleaved (map Whole reqs) = \<lparr>database = run reqs, in_flight = []\<rparr>"
  by (simp add: interleaved_def run_def fold_exec_Whole)

lemma interleaved_after_serial:
  "interleaved (map Whole reqs @ steps) =
     fold exec steps \<lparr>database = run reqs, in_flight = []\<rparr>"
  by (simp add: interleaved_def run_def fold_exec_Whole)

subsection \<open>Balances\<close>

lemma users_init_db: "users (init_db s) = users s"
  by (simp add: init_db_def)

lemma balances_ok_register_user:
  "balances_ok s \<Longrightarrow> balances_ok (fst (register_user s new_id now name))"
  by (auto simp add: balances_ok_def register_user_def split: option.splits if_splits)

lemma balances_ok_paint_pixel:
  "balances_ok s \<Longrightarrow> balances_ok (fst (paint_pixel s now x y color user_id))"
  by (auto simp add: balances_ok_def paint_pixel_def update_balance_def
           split: option.splits if_splits)

lemma balances_ok_submit_reviews:
  "balances_ok s \<Longrightarrow> balances_ok (fst (submit_reviews s user_id proofs))"
  by (auto simp add: balances_ok_def submit_reviews_def update_balance_def Let_def
           split: option.splits sum.splits if_splits)

lemma balances_ok_handle: "balances_ok s \<Longrightarrow> balances_ok (handle req s)"
  by (cases req)
     (simp_all add: balances_ok_register_user balances_ok_paint_pixel
        balances_ok_submit_reviews,
      simp add: balances_ok_def users_init_db)

lemma balances_ok_run: "balances_ok (run reqs)"
proof (induction reqs rule: rev_induct)
  case Nil
  show ?case by (simp add: run_def balances_ok_def init_db_empty_db)
next
  case (snoc req reqs)
  then show ?case by (simp add: run_snoc balances_ok_handle)
qed

subsection \<open>The canvas table\<close>

lemma cell_key_blank_row: "cell_key (blank_row p) = p"
  by (simp add: cell_key_def blank_row_def)

lemma map_cell_key_init_rows: "map cell_key init_rows = List.product [0..31] [0..31]"
proof -
  have "map cell_key init_rows =
          map (\<lambda>p. cell_key (blank_row p)) (List.product [0..31] [0..31])"
    by (simp only: init_rows_def map_map comp_def)
  also have "\<dots> = map (\<lambda>p. p) (List.product [0..31] [0..31])"
    by (simp only: cell_key_blank_row)
  finally show ?thesis by (simp only: map_ident)
qed

lemma length_grid_keys: "length (List.product [0..31] [0..31::int]) = 1024"
  by (simp add: length_product)

lemma distinct_grid_keys: "distinct (List.product [0..31] [0..31::int])"
  by (simp add: distinct_product)

lemma set_grid_keys: "set (List.product [0..31] [0..31::int]) = {0..31} \<times> {0..31}"
  by simp

lemma canvas_ok_init: "canvas_ok (init_db empty_db)"
proof -
  have "\<forall>r\<in>set init_rows. row_color r = 0"
    by (auto simp add: init_rows_def blank_row_def)
  then show ?thesis
    by (simp add: canvas_ok_def init_db_empty_db map_cell_key_init_rows)
qed

lemma canvas_ok_length: "canvas_ok s \<Longrightarrow> length (canvas s) = 1024"
proof -
  assume "canvas_ok s"
  then have "map cell_key (canvas s) = List.product [0..31] [0..31]"
    by (simp add: canvas_ok_def)
  then have "length (map cell_key (canvas s)) = 1024"
    by (simp only: length_grid_keys)
  then show ?thesis by simp
qed

lemma canvas_ok_init_db: "canvas_ok s \<Longrightarrow> init_db s = s"
  by (simp add: init_db_def canvas_ok_length)

lemma map_cell_key_update_canvas:
  "map cell_key (update_canvas rows color user_id timestamp x y) = map cell_key rows"
  by (induction rows) (simp_all add: update_canvas_def cell_key_def)

lemma row_color_update_canvas:
  "r \<in> set (update_canvas rows color user_id timestamp x y) \<Longrightarrow>
   row_color r = color \<or> r \<in> set rows"
  by (auto simp add: update_canvas_def)

lemma find_update_canvas_other:
  "(x', y') \<noteq> (x, y) \<Longrightarrow>
   find (\<lambda>r. row_x r = x' \<and> row_y r = y') (update_canvas rows color user_id timestamp x y) =
   find (\<lambda>r. row_x r = x' \<and> row_y r = y') rows"
  by (induction rows) (auto simp add: update_canvas_def)

lemma find_update_canvas_same:
  "find (\<lambda>r. row_x r = x \<and> row_y r = y) (update_canvas rows color user_id timestamp x y) =
   map_option
     (\<lambda>r. r\<lparr>row_color := color, last_user_id := Some user_id, last_modified := timestamp\<rparr>)
     (find (\<lambda>r. row_x r = x \<and> row_y r = y) rows)"
  by (induction rows) (auto simp add: update_canvas_def)

lemma canvas_ok_paint_pixel:
  assumes "canvas_ok s"
  shows "canvas_ok (fst (paint_pixel s now x y color user_id))"
proof (cases "snd (paint_pixel s now x y color user_id)")
  case (Inl e)
  then have "fst (paint_pixel s now x y color user_id) = s"
    by (auto simp add: paint_pixel_def split: if_splits option.splits)
  with assms show ?thesis by simp
next
  case (Inr r)
  then have rng: "0 \<le> color \<and> color < 16"
    and st: "canvas (fst (paint_pixel s now x y color user_id)) =
             update_canvas (canvas s) color user_id now x y"
    by (auto simp add: paint_pixel_def split: if_splits option.splits)
  show ?thesis
    unfolding canvas_ok_def st map_cell_key_update_canvas
    using assms rng row_color_update_canvas [of _ "canvas s" color user_id now x y]
    by (auto simp add: canvas_ok_def)
qed

lemma canvas_register_user: "canvas (fst (register_user s new_id now name)) = canvas s"
  by (simp add: register_user_def split: option.splits)

lemma canvas_submit_reviews: "canvas (fst (submit_reviews s user_id proofs)) = canvas s"
  by (simp add: submit_reviews_def Let_def split: option.splits sum.splits)

lemma canvas_ok_handle: "canvas_ok s \<Longrightarrow> canvas_ok (handle req s)"
  by (cases req)
     (simp_all add: canvas_ok_init_db canvas_ok_paint_pixel,
      simp_all add: canvas_ok_def canvas_register_user canvas_submit_reviews)

lemma canvas_ok_run: "canvas_ok (run reqs)"
proof (induction reqs rule: rev_induct)
  case Nil
  show ?case by (simp add: run_def canvas_ok_init)
next
  case (snoc req reqs)
  then show ?case by (simp add: run_snoc canvas_ok_handle)
qed

lemma canvas_ok_rows_in_range:
  assumes "canvas_ok s" and "r \<in> set (canvas s)"
  shows "0 \<le> row_x r \<and> row_x r < 32 \<and> 0 \<le> row_y r \<and> row_y r < 32"
proof -
  have "cell_key r \<in> set (map cell_key (canvas s))"
    using assms(2) by simp
  then have "cell_key r \<in> {0..31} \<times> {0..31}"
    using assms(1) by (simp only: canvas_ok_def set_grid_keys)
  then show ?thesis by (auto simp add: cell_key_def)
qed

lemma canvas_ok_select_cell:
  assumes "canvas_ok s" and "0 \<le> x" "x < 32" "0 \<le> y" "y < 32"
  shows "\<exists>r. select_cell s x y = Some r \<and> r \<in> set (canvas s) \<and> row_x r = x \<and> row_y r = y"
proof -
  have "(x, y) \<in> {0..31} \<times> {0..31}"
    using assms(2-5) by simp
  then have "(x, y) \<in> set (map cell_key (canvas s))"
    using assms(1) by (simp only: canvas_ok_def set_grid_keys)
  then obtain r0 where r0: "r0 \<in> set (canvas s)" "row_x r0 = x" "row_y r0 = y"
    by (auto simp add: cell_key_def)
  then have "select_cell s x y \<noteq> None"
    by (auto simp add: select_cell_def find_None_iff)
  then obtain r where r: "select_cell s x y = Some r" by auto
  then have "r \<in> set (canvas s) \<and> row_x r = x \<and> row_y r = y"
    by (auto simp add: select_cell_def find_Some_iff)
  with r show ?thesis by simp
qed

lemma find_filter_conv:
  "find P xs = (case filter P xs of [] \<Rightarrow> None | x # _ \<Rightarrow> Some x)"
  by (induction xs) simp_all

lemma filter_cell_key:
  "filter (\<lambda>r. row_x r = x \<and> row_y r = y) rows = filter (\<lambda>r. cell_key r = (x, y)) rows"
  by (simp add: cell_key_def)

lemma distinct_keys_one_row:
  assumes "distinct (map cell_key rows)" and "k \<in> set (map cell_key rows)"
  shows "length (filter (\<lambda>r. cell_key r = k) rows) = 1"
proof -
  have "length (filter (\<lambda>r. cell_key r = k) rows) =
        length (filter (\<lambda>k'. k' = k) (map cell_key rows))"
    by (simp add: filter_map comp_def)
  also have "\<dots> = card ({k'. k' = k} \<inter> set (map cell_key rows))"
    using assms(1) by (rule distinct_length_filter)
  also have "{k'. k' = k} \<inter> set (map cell_key rows) = {k}"
    using assms(2) by auto
  finally show ?thesis by simp
qed

lemma canvas_ok_one_row:
  assumes "canvas_ok s" and "0 \<le> x" "x < 32" "0 \<le> y" "y < 32"
    and "select_cell s x y = Some r"
  shows "filter (\<lambda>r. row_x r = x \<and> row_y r = y) (canvas s) = [r]"
proof -
  have "(x, y) \<in> {0..31} \<times> {0..31}"
    using assms(2-5) by simp
  then have mem: "(x, y) \<in> set (map cell_key (canvas s))"
    using assms(1) by (simp only: canvas_ok_def set_grid_keys)
  have "distinct (map cell_key (canvas s))"
    using assms(1) by (simp only: canvas_ok_def distinct_grid_keys)
  then have "length (filter (\<lambda>r. cell_key r = (x, y)) (canvas s)) = 1"
    using mem by (rule distinct_keys_one_row)
  then have "length (filter (\<lambda>r. row_x r = x \<and> row_y r = y) (canvas s)) = 1"
    by (simp only: filter_cell_key)
  then obtain r' where r': "filter (\<lambda>r. row_x r = x \<and> row_y r = y) (canvas s) = [r']"
    by (auto simp add: length_Suc_conv)
  then have "select_cell s x y = Some r'"
    by (simp add: select_cell_def find_filter_conv)
  with assms(6) r' show ?thesis by simp
qed

subsection \<open>The loop of \<open>get_canvas\<close>\<close>

lemma length_fold_place: "length (fold place rows grid) = length grid"
  by (induction rows arbitrary: grid) (simp_all add: place_def Let_def)

lemma length_get_canvas: "length (get_canvas s) = 1024"
  by (simp add: get_canvas_def length_fold_place)

lemma fold_place_untouched:
  "\<forall>r\<in>set rows. nat (row_y r * 32 + row_x r) \<noteq> i \<Longrightarrow>
   fold place rows grid ! i = grid ! i"
  by (induction rows arbitrary: grid) (simp_all add: place_def Let_def)

lemma grid_index_inj:
  fixes x y x' y' :: int
  assumes "0 \<le> x" "x < 32" "0 \<le> y" "0 \<le> x'" "x' < 32" "0 \<le> y'"
    and "nat (y * 32 + x) = nat (y' * 32 + x')"
  shows "x = x' \<and> y = y'"
proof -
  have "y * 32 + x = y' * 32 + x'"
    using assms by linarith
  then have "(y * 32 + x) mod 32 = (y' * 32 + x') mod 32"
    and "(y * 32 + x) div 32 = (y' * 32 + x') div 32"
    by simp_all
  with assms(1,2,4,5) show ?thesis by simp
qed

lemma distinct_cell_key_Cons:
  "distinct (map cell_key (a # rows)) \<Longrightarrow> r' \<in> set rows \<Longrightarrow> cell_key r' \<noteq> cell_key a"
  by (metis distinct.simps(2) image_eqI list.simps(9) set_map)

lemma fold_place_written:
  assumes "distinct (map cell_key rows)"
    and "\<forall>r\<in>set rows. 0 \<le> row_x r \<and> row_x r < 32 \<and> 0 \<le> row_y r \<and> row_y r < 32"
    and "r \<in> set rows"
    and "length grid = 1024"
  shows "fold place rows grid ! nat (row_y r * 32 + row_x r) = row_color r"
  using assms
proof (induction rows arbitrary: grid)
  case Nil
  then show ?case by simp
next
  case (Cons a rows)
  have a_rng: "0 \<le> row_x a \<and> row_x a < 32 \<and> 0 \<le> row_y a \<and> row_y a < 32"
    using Cons.prems(2) by simp
  have len: "length (place a grid) = 1024"
    using Cons.prems(4) by (simp add: place_def Let_def)
  show ?case
  proof (cases "r = a")
    case True
    have "\<forall>r'\<in>set rows. nat (row_y r' * 32 + row_x r') \<noteq> nat (row_y a * 32 + row_x a)"
    proof
      fix r' assume r': "r' \<in> set rows"
      then have "cell_key r' \<noteq> cell_key a"
        using Cons.prems(1) by (rule distinct_cell_key_Cons [rotated])
      moreover have "0 \<le> row_x r' \<and> row_x r' < 32 \<and> 0 \<le> row_y r' \<and> row_y r' < 32"
        using Cons.prems(2) r' by simp
      ultimately show "nat (row_y r' * 32 + row_x r') \<noteq> nat (row_y a * 32 + row_x a)"
        using a_rng grid_index_inj [of "row_x r'" "row_y r'" "row_x a" "row_y a"]
        by (auto simp add: cell_key_def)
    qed
    then have "fold place rows (place a grid) ! nat (row_y a * 32 + row_x a) =
               place a grid ! nat (row_y a * 32 + row_x a)"
      by (rule fold_place_untouched)
    also have "\<dots> = row_color a"
    proof -
      have "nat (row_y a * 32 + row_x a) < length grid"
        using a_rng Cons.prems(4) by linarith
      then show ?thesis
        using a_rng by (simp add: place_def Let_def)
    qed
    finally show ?thesis using True by simp
  next
    case False
    then have mem: "r \<in> set rows" using Cons.prems(3) by simp
    have "distinct (map cell_key rows)" using Cons.prems(1) by simp
    moreover have "\<forall>r\<in>set rows. 0 \<le> row_x r \<and> row_x r < 32 \<and> 0 \<le> row_y r \<and> row_y r < 32"
      using Cons.prems(2) by simp
    moreover note mem
    ultimately have "fold place rows (place a grid) ! nat (row_y r * 32 + row_x r) = row_color r"
      using len by (rule Cons.IH)
    then show ?thesis by simp
  qed
qed

lemma canvas_ok_get_canvas_cell:
  assumes "canvas_ok s" and "0 \<le> x" "x < 32" "0 \<le> y" "y < 32"
  shows "\<exists>r. select_cell s x y = Some r \<and>
             filter (\<lambda>r. row_x r = x \<and> row_y r = y) (canvas s) = [r] \<and>
             get_canvas s ! nat (y * 32 + x) = row_color r \<and>
             0 \<le> row_color r \<and> row_color r < 16"
proof -
  obtain r where r: "select_cell s x y = Some r" "r \<in> set (canvas s)" "row_x r = x" "row_y r = y"
    using canvas_ok_select_cell [OF assms] by blast
  have "distinct (map cell_key (canvas s))"
    using assms(1) by (simp only: canvas_ok_def distinct_grid_keys)
  moreover have "\<forall>r\<in>set (canvas s). 0 \<le> row_x r \<and> row_x r < 32 \<and> 0 \<le> row_y r \<and> row_y r < 32"
    using canvas_ok_rows_in_range [OF assms(1)] by blast
  moreover have "length (replicate (32 * 32) (0::int)) = 1024" by simp
  ultimately have "fold place (canvas s) (replicate (32 * 32) 0) ! nat (row_y r * 32 + row_x r)
      = row_color r"
    using r(2) by (intro fold_place_written)
  then have "get_canvas s ! nat (y * 32 + x) = row_color r"
    using r(3,4) by (simp add: get_canvas_def)
  moreover have "0 \<le> row_color r \<and> row_color r < 16"
    using assms(1) r(2) by (simp add: canvas_ok_def)
  moreover have "filter (\<lambda>r. row_x r = x \<and> row_y r = y) (canvas s) = [r]"
    using assms r(1) by (rule canvas_ok_one_row)
  ultimately show ?thesis using r(1) by simp
qed

text \<open>For a user that exists, the call succeeds exactly when every card identifier fits.\<close>

lemma submit_reviews_success_iff:
  assumes "users s user_id = Some row"
  shows "(\<exists>s' r. submit_reviews s user_id ps = (s', Inr r)) \<longleftrightarrow>
         (\<forall>p\<in>set ps. fits_int64 (fst p))"
proof
  assume ok: "\<exists>s' r. submit_reviews s user_id ps = (s', Inr r)"
  show "\<forall>p\<in>set ps. fits_int64 (fst p)"
  proof (rule ccontr)
    assume "\<not> (\<forall>p\<in>set ps. fits_int64 (fst p))"
    then obtain p where "p \<in> set ps" "\<not> fits_int64 (fst p)" by blast
    then have "submit_reviews s user_id ps = (s, Inl OverflowError)"
      using assms submit_reviews_overflow by blast
    with ok show False by simp
  qed
next
  assume "\<forall>p\<in>set ps. fits_int64 (fst p)"
  then obtain acc where "record_proofs user_id ps (review_proofs s, 0) = Inr acc"
    using record_proofs_total by blast
  then show "\<exists>s' r. submit_reviews s user_id ps = (s', Inr r)"
    using assms by (simp add: submit_reviews_def Let_def)
qed

lemma proof_known_map_storedD:
  "proof_known (map (stored user_id) ps) user_id (fst p) (snd p) \<Longrightarrow> p \<in> set ps"
  by (induction ps)
     (auto simp add: proof_known_def stored_def sql_eq_def bind_real_def prod_eq_iff
           split: if_splits)

lemma proof_known_Nil: "\<not> proof_known [] user_id card_id timestamp"
  by (simp add: proof_known_def)

lemma fits_example_proofs:
  "- 100 \<le> i \<Longrightarrow> j \<le> 100 \<Longrightarrow> \<forall>p\<in>set (example_proofs i j). fits_int64 (fst p)"
  by (auto simp add: example_proofs_def fits_int64_def)

lemma length_example_proofs: "length (example_proofs i j) = nat (j - i + 1)"
  by (simp add: example_proofs_def)

lemma distinct_example_proofs_25:
  "distinct (example_proofs 1 9 @ example_proofs 10 25)"
  "distinct (example_proofs 1 10 @ example_proofs 11 25)"
  "distinct (example_proofs 1 5 @ example_proofs 6 25)"
  by (simp_all add: example_proofs_def upto_rec1)


section \<open>Proof submission\<close>

text \<open>
  Claim C1 (idempotence of \<open>submit_reviews\<close>). Submitting the same proof list a second
  time should return \<open>new_proofs = 0\<close> and \<open>paint_awarded = 0\<close> and credit nothing. The
  handler breaks this for proofs whose timestamp is NaN: the timestamp is stored as NULL, the
  SELECT that looks for an earlier submission compares it with \<open>=\<close> and finds no row, and
  the proof is inserted and counted again on every call. For a user with balance 0 and ten
  proofs with a NaN timestamp, the first call returns \<open>(10, 1)\<close>, the second call on the
  database left by the first returns \<open>(10, 1)\<close> again, and the balance after both is 2.
\<close>

theorem submit_reviews_nan_counted_again:
  "users (run reqs_alice) ''u1'' =
     Some \<lparr>username = ''alice'', paint_balance = 0, created_at = 100\<rparr> \<and>
   snd (submit_reviews (run reqs_alice) ''u1'' nan_proofs) = Inr (10, 1) \<and>
   snd (submit_reviews (fst (submit_reviews (run reqs_alice) ''u1'' nan_proofs)) ''u1''
          nan_proofs) = Inr (10, 1) \<and>
   map_option paint_balance
     (users (fst (submit_reviews (fst (submit_reviews (run reqs_alice) ''u1'' nan_proofs))
                    ''u1'' nan_proofs)) ''u1'') = Some 2"
  by (simp add: run_alice submit_reviews_def nan_proofs_def Let_def upto_rec1
        fits_int64_def proof_known_def stored_def sql_eq_def bind_real_def update_balance_def)

text \<open>
  Where the handler does what the claim says: for a user that exists and a list in which no
  timestamp is NaN and every card identifier fits 64 bits, the first submission succeeds,
  and submitting the same list again, on the database the first call left, succeeds with
  \<open>(0, 0)\<close> and leaves that database as it is; the balance after both calls is the balance
  before plus the paint awarded by the first call alone.
\<close>

lemma submit_reviews_idempotent:
  assumes "users s user_id = Some row"
    and "\<forall>p\<in>set proofs. fits_int64 (fst p) \<and> snd p \<noteq> NaN"
  shows "\<exists>s1 n1 a1 row1.
           submit_reviews s user_id proofs = (s1, Inr (n1, a1)) \<and>
           submit_reviews s1 user_id proofs = (s1, Inr (0, 0)) \<and>
           users s1 user_id = Some row1 \<and>
           paint_balance row1 = paint_balance row + a1"
proof -
  obtain acc where acc: "record_proofs user_id proofs (review_proofs s, 0) = Inr acc"
    using record_proofs_total [of proofs user_id "(review_proofs s, 0)"] assms(2) by blast
  define a1 where "a1 = snd acc div 10"
  define us where "us = (if a1 > 0 then update_balance (users s) a1 user_id else users s)"
  define s1 where "s1 = s\<lparr>users := us, review_proofs := fst acc\<rparr>"
  define row1 where "row1 = row\<lparr>paint_balance := paint_balance row + a1\<rparr>"
  have first: "submit_reviews s user_id proofs = (s1, Inr (snd acc, a1))"
    using assms(1) by (simp add: submit_reviews_def Let_def acc a1_def us_def s1_def)
  have "0 \<le> snd acc"
    using acc by (rule record_proofs_count_nonneg) simp
  then have "0 \<le> a1"
    by (simp add: a1_def)
  then have us1: "users s1 user_id = Some row1"
    using assms(1)
    by (cases "a1 = 0") (simp_all add: s1_def us_def row1_def update_balance_def)
  have "\<forall>p\<in>set proofs. fits_int64 (fst p) \<and> proof_known (fst acc) user_id (fst p) (snd p)"
    using assms(2) record_proofs_records [OF acc] by blast
  then have again:
    "record_proofs user_id proofs (review_proofs s1, 0) = Inr (review_proofs s1, 0)"
    by (simp add: s1_def record_proofs_known)
  have second: "submit_reviews s1 user_id proofs = (s1, Inr (0, 0))"
    using us1 by (simp add: submit_reviews_def again)
  have "paint_balance row1 = paint_balance row + a1"
    by (simp add: row1_def)
  with first second us1 show ?thesis by blast
qed

text \<open>
  Ten proofs with an ordinary timestamp for a user with balance 0: the first call awards 1,
  the second call awards nothing, and the balance after both is 1.
\<close>

lemma submit_reviews_idempotent_example:
  "snd (submit_reviews (run reqs_alice) ''u1'' (example_proofs 1 10)) = Inr (10, 1) \<and>
   submit_reviews (fst (submit_reviews (run reqs_alice) ''u1'' (example_proofs 1 10))) ''u1''
       (example_proofs 1 10) =
     (fst (submit_reviews (run reqs_alice) ''u1'' (example_proofs 1 10)), Inr (0, 0)) \<and>
   map_option paint_balance
     (users (fst (submit_reviews (run reqs_alice) ''u1'' (example_proofs 1 10))) ''u1'') =
     Some 1"
proof -
  have h: "users (run reqs_alice) ''u1'' =
     Some \<lparr>username = ''alice'', paint_balance = 0, created_at = 100\<rparr>"
    by (simp add: run_alice)
  have c: "\<forall>p\<in>set (example_proofs 1 10). fits_int64 (fst p) \<and> snd p \<noteq> NaN"
    by (auto simp add: example_proofs_def fits_int64_def)
  have r: "snd (submit_reviews (run reqs_alice) ''u1'' (example_proofs 1 10)) = Inr (10, 1)"
    by (simp add: run_alice submit_reviews_def example_proofs_def Let_def upto_rec1
          fits_int64_def proof_known_def stored_def sql_eq_def bind_real_def)
  from submit_reviews_idempotent [OF h c]
  obtain s1 n1 a1 row1 where
    "submit_reviews (run reqs_alice) ''u1'' (example_proofs 1 10) = (s1, Inr (n1, a1))"
    "submit_reviews s1 ''u1'' (example_proofs 1 10) = (s1, Inr (0, 0))"
    "users s1 ''u1'' = Some row1"
    "paint_balance row1 =
       paint_balance \<lparr>username = ''alice'', paint_balance = 0, created_at = 100\<rparr> + a1"
    by blast
  with r show ?thesis by simp
qed

text \<open>
  A card identifier of \<open>2 ^ 63\<close> after ten ordinary proofs: the call raises when it binds
  that identifier, and the ten rows inserted before are not committed.
\<close>

lemma submit_reviews_overflow_example:
  "submit_reviews (run reqs_alice) ''u1'' (example_proofs 1 10 @ [(2 ^ 63, Finite 1700000000)]) =
     (run reqs_alice, Inl OverflowError)"
proof -
  have "users (run reqs_alice) ''u1'' =
     Some \<lparr>username = ''alice'', paint_balance = 0, created_at = 100\<rparr>"
    by (simp add: run_alice)
  moreover have "(2 ^ 63, Finite 1700000000) \<in>
      set (example_proofs 1 10 @ [(2 ^ 63, Finite 1700000000)])"
    by simp
  moreover have "\<not> fits_int64 (fst (2 ^ 63 :: int, Finite 1700000000))"
    by (simp add: fits_int64_def)
  ultimately show ?thesis by (rule submit_reviews_overflow)
qed

section \<open>Painting\<close>

text \<open>
  Claim C2 (conservation). For a user that exists, a \<open>paint_pixel\<close> call that succeeds
  leaves the user's balance one lower than before; and when the balance is 0 the call does not
  succeed: for coordinates and a colour in range it raises the 403 exception
  (insufficient funds) and leaves the database as it is.
\<close>

theorem paint_pixel_conservation:
  assumes "users s user_id = Some row"
  shows "(paint_pixel s now x y color user_id = (s', Inr r) \<longrightarrow>
           map_option paint_balance (users s' user_id) = Some (paint_balance row - 1)) \<and>
         (paint_balance row = 0 \<longrightarrow>
           (\<forall>r. snd (paint_pixel s now x y color user_id) \<noteq> Inr r) \<and>
           (0 \<le> x \<and> x < 32 \<and> 0 \<le> y \<and> y < 32 \<and> 0 \<le> color \<and> color < 16 \<longrightarrow>
             paint_pixel s now x y color user_id =
               (s, Inl (HTTPException 403 ''Not enough paint drops. Study more cards!''))))"
  using assms by (auto simp add: paint_pixel_def update_balance_def split: if_splits)

theorem paint_pixel_conservation_witness:
  "users (run reqs_funded) ''u1'' =
     Some \<lparr>username = ''alice'', paint_balance = 1, created_at = 100\<rparr> \<and>
   paint_pixel (run reqs_funded) 200 3 4 5 ''u1'' = (run reqs_painted, Inr (3, 4, 5)) \<and>
   map_option paint_balance (users (run reqs_painted) ''u1'') = Some 0 \<and>
   users (run reqs_alice) ''u1'' =
     Some \<lparr>username = ''alice'', paint_balance = 0, created_at = 100\<rparr> \<and>
   paint_pixel (run reqs_alice) 200 3 4 5 ''u1'' =
     (run reqs_alice, Inl (HTTPException 403 ''Not enough paint drops. Study more cards!''))"
proof -
  have h1: "users (run reqs_funded) ''u1'' =
     Some \<lparr>username = ''alice'', paint_balance = 1, created_at = 100\<rparr>"
    by (simp add: run_funded)
  have p1: "paint_pixel (run reqs_funded) 200 3 4 5 ''u1'' = (run reqs_painted, Inr (3, 4, 5))"
    by (simp add: run_funded run_painted paint_pixel_def update_balance_def)
  have h2: "users (run reqs_alice) ''u1'' =
     Some \<lparr>username = ''alice'', paint_balance = 0, created_at = 100\<rparr>"
    by (simp add: run_alice)
  from paint_pixel_conservation [OF h1, of 200 3 4 5 "run reqs_painted" "(3, 4, 5)"]
       paint_pixel_conservation [OF h2, of 200 3 4 5]
       h1 p1 h2
  show ?thesis by simp
qed

text \<open>
  Claim C3 (atomicity). A \<open>paint_pixel\<close> call that raises, in particular with the 404
  exception for an unknown user or the 403 exception for an empty balance, leaves the database
  exactly as it was: every cell keeps its colour, editor and timestamp, and every balance its
  value.
\<close>

theorem paint_pixel_failure_unchanged:
  "snd (paint_pixel s now x y color user_id) = Inl e \<Longrightarrow>
   fst (paint_pixel s now x y color user_id) = s"
  by (auto simp add: paint_pixel_def split: if_splits option.splits)

theorem paint_pixel_failure_unchanged_witness:
  "snd (paint_pixel (run reqs_funded) 200 3 4 5 ''ghost'') =
     Inl (HTTPException 404 ''User ID not found. Register first.'') \<and>
   fst (paint_pixel (run reqs_funded) 200 3 4 5 ''ghost'') = run reqs_funded \<and>
   snd (paint_pixel (run reqs_alice) 200 3 4 5 ''u1'') =
     Inl (HTTPException 403 ''Not enough paint drops. Study more cards!'') \<and>
   fst (paint_pixel (run reqs_alice) 200 3 4 5 ''u1'') = run reqs_alice"
proof -
  have h1: "snd (paint_pixel (run reqs_funded) 200 3 4 5 ''ghost'') =
     Inl (HTTPException 404 ''User ID not found. Register first.'')"
    by (simp add: run_funded paint_pixel_def)
  have h2: "snd (paint_pixel (run reqs_alice) 200 3 4 5 ''u1'') =
     Inl (HTTPException 403 ''Not enough paint drops. Study more cards!'')"
    by (simp add: run_alice paint_pixel_def)
  from h1 paint_pixel_failure_unchanged [OF h1] h2 paint_pixel_failure_unchanged [OF h2]
  show ?thesis by blast
qed

text \<open>
  Claim C6 (unknown user). \<open>submit_reviews\<close> for a user identifier that is not in
  \<open>users\<close> raises the 404 exception whatever the proof list is: the check comes before the
  loop over the proofs, so no proof is recorded and no balance changes; the database is the
  one before the call.
\<close>

theorem submit_reviews_unknown_user:
  "users s user_id = None \<Longrightarrow>
   submit_reviews s user_id proofs = (s, Inl (HTTPException 404 ''User not found''))"
  by (simp add: submit_reviews_def)

theorem submit_reviews_unknown_user_witness:
  "users (run reqs_funded) ''ghost'' = None \<and>
   submit_reviews (run reqs_funded) ''ghost'' (example_proofs 1 25) =
     (run reqs_funded, Inl (HTTPException 404 ''User not found''))"
proof -
  have h: "users (run reqs_funded) ''ghost'' = None"
    by (simp add: run_funded)
  from h submit_reviews_unknown_user [OF h, of "example_proofs 1 25"] show ?thesis
    by (rule conjI)
qed

text \<open>
  Claim C10 (empty submission). For a user that exists, \<open>submit_reviews\<close> with the empty
  proof list succeeds with \<open>new_proofs = 0\<close> and \<open>paint_awarded = 0\<close> and leaves the
  database as it is.
\<close>

theorem submit_reviews_no_proofs:
  "users s user_id = Some row \<Longrightarrow> submit_reviews s user_id [] = (s, Inr (0, 0))"
  by (simp add: submit_reviews_def)

theorem submit_reviews_no_proofs_witness:
  "users (run reqs_funded) ''u1'' =
     Some \<lparr>username = ''alice'', paint_balance = 1, created_at = 100\<rparr> \<and>
   submit_reviews (run reqs_funded) ''u1'' [] = (run reqs_funded, Inr (0, 0))"
proof -
  have h: "users (run reqs_funded) ''u1'' =
     Some \<lparr>username = ''alice'', paint_balance = 1, created_at = 100\<rparr>"
    by (simp add: run_funded)
  from h submit_reviews_no_proofs [OF h] show ?thesis
    by (rule conjI)
qed

section \<open>Award arithmetic\<close>

text \<open>
  Claim C4 (award arithmetic). Every successful \<open>submit_reviews\<close> call awards
  \<open>new_proofs div 10\<close>, the floor of the quotient, computed from that call's count alone.
  When the proofs of two batches are distinct, none is recorded yet for the user and
  every card identifier fits 64 bits, each call succeeds and counts the length of its batch,
  the second call on the database left by the first. In particular 25 new proofs in one call award 2; batches of 10 and 15 award
  1 and 1; batches of 5 and 20 award 0 and 2; batches of 9 and 16 award 0 and 1.
\<close>

theorem submit_reviews_award:
  "(submit_reviews s user_id proofs = (s', Inr (n, a)) \<longrightarrow> a = n div 10) \<and>
   (let r1 = submit_reviews s user_id ps1;
        r2 = submit_reviews (fst r1) user_id ps2;
        r = submit_reviews s user_id (ps1 @ ps2)
    in users s user_id \<noteq> None \<and> distinct (ps1 @ ps2) \<and>
       (\<forall>p\<in>set (ps1 @ ps2). fits_int64 (fst p) \<and>
          \<not> proof_known (review_proofs s) user_id (fst p) (snd p)) \<longrightarrow>
         snd r = Inr (int (length ps1 + length ps2), int (length ps1 + length ps2) div 10) \<and>
         snd r1 = Inr (int (length ps1), int (length ps1) div 10) \<and>
         snd r2 = Inr (int (length ps2), int (length ps2) div 10) \<and>
         (length ps1 + length ps2 = 25 \<longrightarrow> snd r = Inr (25, 2)) \<and>
         (length ps1 = 10 \<and> length ps2 = 15 \<longrightarrow> snd r1 = Inr (10, 1) \<and> snd r2 = Inr (15, 1)) \<and>
         (length ps1 = 5 \<and> length ps2 = 20 \<longrightarrow> snd r1 = Inr (5, 0) \<and> snd r2 = Inr (20, 2)) \<and>
         (length ps1 = 9 \<and> length ps2 = 16 \<longrightarrow> snd r1 = Inr (9, 0) \<and> snd r2 = Inr (16, 1)))"
proof (rule conjI)
  show "submit_reviews s user_id proofs = (s', Inr (n, a)) \<longrightarrow> a = n div 10"
    by (auto simp add: submit_reviews_def Let_def split: option.splits sum.splits)
next
  define r1 where "r1 = submit_reviews s user_id ps1"
  define r2 where "r2 = submit_reviews (fst r1) user_id ps2"
  define r where "r = submit_reviews s user_id (ps1 @ ps2)"
  have main:
    "snd r = Inr (int (length ps1 + length ps2), int (length ps1 + length ps2) div 10) \<and>
     snd r1 = Inr (int (length ps1), int (length ps1) div 10) \<and>
     snd r2 = Inr (int (length ps2), int (length ps2) div 10)"
    if ex: "users s user_id \<noteq> None" and d: "distinct (ps1 @ ps2)"
      and fresh: "\<forall>p\<in>set (ps1 @ ps2). fits_int64 (fst p) \<and>
          \<not> proof_known (review_proofs s) user_id (fst p) (snd p)"
  proof -
    from ex obtain row where row: "users s user_id = Some row" by auto
    have d1: "distinct ps1" and d2: "distinct ps2" and dj: "set ps1 \<inter> set ps2 = {}"
      using d by simp_all
    have f1: "\<forall>p\<in>set ps1. fits_int64 (fst p) \<and>
          \<not> proof_known (review_proofs s) user_id (fst p) (snd p)"
      and f2: "\<forall>p\<in>set ps2. fits_int64 (fst p) \<and>
          \<not> proof_known (review_proofs s) user_id (fst p) (snd p)"
      using fresh by simp_all
    have e: "snd r = Inr (int (length ps1 + length ps2), int (length ps1 + length ps2) div 10)"
      unfolding r_def using submit_reviews_fresh [OF row d fresh] by simp
    have e1: "r1 = (s\<lparr>users := (if int (length ps1) div 10 > 0
                         then update_balance (users s) (int (length ps1) div 10) user_id
                         else users s),
               review_proofs := review_proofs s @ map (stored user_id) ps1\<rparr>,
            Inr (int (length ps1), int (length ps1) div 10))"
      unfolding r1_def by (rule submit_reviews_fresh [OF row d1 f1])
    have "\<exists>row1. users (fst r1) user_id = Some row1"
      by (simp add: e1 update_balance_def row)
    then obtain row1 where row1: "users (fst r1) user_id = Some row1" by blast
    have f2': "\<forall>p\<in>set ps2. fits_int64 (fst p) \<and>
          \<not> proof_known (review_proofs (fst r1)) user_id (fst p) (snd p)"
    proof
      fix p assume p: "p \<in> set ps2"
      then have "p \<notin> set ps1" using dj by auto
      then have "\<not> proof_known (map (stored user_id) ps1) user_id (fst p) (snd p)"
        using proof_known_map_storedD by blast
      then show "fits_int64 (fst p) \<and>
          \<not> proof_known (review_proofs (fst r1)) user_id (fst p) (snd p)"
        using f2 p by (simp add: e1 proof_known_append)
    qed
    have e2: "snd r2 = Inr (int (length ps2), int (length ps2) div 10)"
      unfolding r2_def using submit_reviews_fresh [OF row1 d2 f2'] by simp
    from e e1 e2 show ?thesis by simp
  qed
  show "let r1 = submit_reviews s user_id ps1;
        r2 = submit_reviews (fst r1) user_id ps2;
        r = submit_reviews s user_id (ps1 @ ps2)
    in users s user_id \<noteq> None \<and> distinct (ps1 @ ps2) \<and>
       (\<forall>p\<in>set (ps1 @ ps2). fits_int64 (fst p) \<and>
          \<not> proof_known (review_proofs s) user_id (fst p) (snd p)) \<longrightarrow>
         snd r = Inr (int (length ps1 + length ps2), int (length ps1 + length ps2) div 10) \<and>
         snd r1 = Inr (int (length ps1), int (length ps1) div 10) \<and>
         snd r2 = Inr (int (length ps2), int (length ps2) div 10) \<and>
         (length ps1 + length ps2 = 25 \<longrightarrow> snd r = Inr (25, 2)) \<and>
         (length ps1 = 10 \<and> length ps2 = 15 \<longrightarrow> snd r1 = Inr (10, 1) \<and> snd r2 = Inr (15, 1)) \<and>
         (length ps1 = 5 \<and> length ps2 = 20 \<longrightarrow> snd r1 = Inr (5, 0) \<and> snd r2 = Inr (20, 2)) \<and>
         (length ps1 = 9 \<and> length ps2 = 16 \<longrightarrow> snd r1 = Inr (9, 0) \<and> snd r2 = Inr (16, 1))"
    unfolding Let_def r1_def [symmetric] r2_def [symmetric] r_def [symmetric]
  proof (intro impI)
    assume h: "users s user_id \<noteq> None \<and> distinct (ps1 @ ps2) \<and>
       (\<forall>p\<in>set (ps1 @ ps2). fits_int64 (fst p) \<and>
          \<not> proof_known (review_proofs s) user_id (fst p) (snd p))"
    then have m:
      "snd r = Inr (int (length ps1 + length ps2), int (length ps1 + length ps2) div 10) \<and>
       snd r1 = Inr (int (length ps1), int (length ps1) div 10) \<and>
       snd r2 = Inr (int (length ps2), int (length ps2) div 10)"
      using main by blast
    have c25: "length ps1 + length ps2 = 25 \<longrightarrow> snd r = Inr (25, 2)"
    proof
      assume "length ps1 + length ps2 = 25"
      then have "int (length ps1 + length ps2) = 25" by (simp only: of_nat_numeral)
      with m show "snd r = Inr (25, 2)" by (simp del: of_nat_add)
    qed
    have c10: "length ps1 = 10 \<and> length ps2 = 15 \<longrightarrow> snd r1 = Inr (10, 1) \<and> snd r2 = Inr (15, 1)"
      using m by simp
    have c5: "length ps1 = 5 \<and> length ps2 = 20 \<longrightarrow> snd r1 = Inr (5, 0) \<and> snd r2 = Inr (20, 2)"
      using m by simp
    have c9: "length ps1 = 9 \<and> length ps2 = 16 \<longrightarrow> snd r1 = Inr (9, 0) \<and> snd r2 = Inr (16, 1)"
      using m by simp
    from m c25 c10 c5 c9
    show "snd r = Inr (int (length ps1 + length ps2), int (length ps1 + length ps2) div 10) \<and>
         snd r1 = Inr (int (length ps1), int (length ps1) div 10) \<and>
         snd r2 = Inr (int (length ps2), int (length ps2) div 10) \<and>
         (length ps1 + length ps2 = 25 \<longrightarrow> snd r = Inr (25, 2)) \<and>
         (length ps1 = 10 \<and> length ps2 = 15 \<longrightarrow> snd r1 = Inr (10, 1) \<and> snd r2 = Inr (15, 1)) \<and>
         (length ps1 = 5 \<and> length ps2 = 20 \<longrightarrow> snd r1 = Inr (5, 0) \<and> snd r2 = Inr (20, 2)) \<and>
         (length ps1 = 9 \<and> length ps2 = 16 \<longrightarrow> snd r1 = Inr (9, 0) \<and> snd r2 = Inr (16, 1))"
      by blast
  qed
qed

text \<open>
  A user with no recorded proof and 25 distinct proofs: split 9 and 16, 10 and 15, and
  5 and 20; and the ten-proof submission of the example run.
\<close>

theorem submit_reviews_award_witness:
  "submit_reviews (run reqs_alice) ''u1'' (example_proofs 1 10) = (run reqs_funded, Inr (10, 1)) \<and>
   snd (submit_reviews (run reqs_alice) ''u1'' (example_proofs 1 9 @ example_proofs 10 25))
     = Inr (25, 2) \<and>
   snd (submit_reviews (run reqs_alice) ''u1'' (example_proofs 1 9)) = Inr (9, 0) \<and>
   snd (submit_reviews (fst (submit_reviews (run reqs_alice) ''u1'' (example_proofs 1 9))) ''u1''
          (example_proofs 10 25)) = Inr (16, 1) \<and>
   snd (submit_reviews (run reqs_alice) ''u1'' (example_proofs 1 10 @ example_proofs 11 25))
     = Inr (25, 2) \<and>
   snd (submit_reviews (run reqs_alice) ''u1'' (example_proofs 1 10)) = Inr (10, 1) \<and>
   snd (submit_reviews (fst (submit_reviews (run reqs_alice) ''u1'' (example_proofs 1 10))) ''u1''
          (example_proofs 11 25)) = Inr (15, 1) \<and>
   snd (submit_reviews (run reqs_alice) ''u1'' (example_proofs 1 5 @ example_proofs 6 25))
     = Inr (25, 2) \<and>
   snd (submit_reviews (run reqs_alice) ''u1'' (example_proofs 1 5)) = Inr (5, 0) \<and>
   snd (submit_reviews (fst (submit_reviews (run reqs_alice) ''u1'' (example_proofs 1 5))) ''u1''
          (example_proofs 6 25)) = Inr (20, 2)"
proof -
  have call: "submit_reviews (run reqs_alice) ''u1'' (example_proofs 1 10) =
      (run reqs_funded, Inr (10, 1))"
    unfolding run_alice run_funded
    by (simp add: submit_reviews_def example_proofs_def update_balance_def Let_def upto_rec1
          fits_int64_def proof_known_def stored_def sql_eq_def bind_real_def)
  have u: "users (run reqs_alice) ''u1'' \<noteq> None"
    by (simp add: run_alice)
  have f: "\<not> proof_known (review_proofs (run reqs_alice)) ''u1'' c t" for c t
    by (simp add: run_alice proof_known_Nil)
  have fit: "\<forall>p\<in>set (example_proofs i j). fits_int64 (fst p)"
    if "- 100 \<le> i" "j \<le> 100" for i j
    using that by (rule fits_example_proofs)
  have len: "length (example_proofs 1 9) = 9" "length (example_proofs 10 25) = 16"
    "length (example_proofs 1 10) = 10" "length (example_proofs 11 25) = 15"
    "length (example_proofs 1 5) = 5" "length (example_proofs 6 25) = 20"
    by (simp_all add: length_example_proofs)
  have ha: "users (run reqs_alice) ''u1'' \<noteq> None \<and>
      distinct (example_proofs 1 9 @ example_proofs 10 25) \<and>
      (\<forall>p\<in>set (example_proofs 1 9 @ example_proofs 10 25). fits_int64 (fst p) \<and>
          \<not> proof_known (review_proofs (run reqs_alice)) ''u1'' (fst p) (snd p))"
    using u f distinct_example_proofs_25(1) fit [of 1 9] fit [of 10 25] by auto
  have hb: "users (run reqs_alice) ''u1'' \<noteq> None \<and>
      distinct (example_proofs 1 10 @ example_proofs 11 25) \<and>
      (\<forall>p\<in>set (example_proofs 1 10 @ example_proofs 11 25). fits_int64 (fst p) \<and>
          \<not> proof_known (review_proofs (run reqs_alice)) ''u1'' (fst p) (snd p))"
    using u f distinct_example_proofs_25(2) fit [of 1 10] fit [of 11 25] by auto
  have hc: "users (run reqs_alice) ''u1'' \<noteq> None \<and>
      distinct (example_proofs 1 5 @ example_proofs 6 25) \<and>
      (\<forall>p\<in>set (example_proofs 1 5 @ example_proofs 6 25). fits_int64 (fst p) \<and>
          \<not> proof_known (review_proofs (run reqs_alice)) ''u1'' (fst p) (snd p))"
    using u f distinct_example_proofs_25(3) fit [of 1 5] fit [of 6 25] by auto
  have a: "snd (submit_reviews (run reqs_alice) ''u1'' (example_proofs 1 9 @ example_proofs 10 25))
            = Inr (25, 2) \<and>
     snd (submit_reviews (run reqs_alice) ''u1'' (example_proofs 1 9)) = Inr (9, 0) \<and>
     snd (submit_reviews (fst (submit_reviews (run reqs_alice) ''u1'' (example_proofs 1 9))) ''u1''
          (example_proofs 10 25)) = Inr (16, 1)"
    using submit_reviews_award [of "run reqs_alice" "''u1''" "example_proofs 1 10"
        "run reqs_funded" 10 1 "example_proofs 1 9" "example_proofs 10 25",
        THEN conjunct2, unfolded Let_def, rule_format, OF ha] call len
    by simp
  have b: "snd (submit_reviews (run reqs_alice) ''u1'' (example_proofs 1 10 @ example_proofs 11 25))
            = Inr (25, 2) \<and>
     snd (submit_reviews (run reqs_alice) ''u1'' (example_proofs 1 10)) = Inr (10, 1) \<and>
     snd (submit_reviews (fst (submit_reviews (run reqs_alice) ''u1'' (example_proofs 1 10))) ''u1''
          (example_proofs 11 25)) = Inr (15, 1)"
    using submit_reviews_award [of "run reqs_alice" "''u1''" "example_proofs 1 10"
        "run reqs_funded" 10 1 "example_proofs 1 10" "example_proofs 11 25",
        THEN conjunct2, unfolded Let_def, rule_format, OF hb] len
    by simp
  have c: "snd (submit_reviews (run reqs_alice) ''u1'' (example_proofs 1 5 @ example_proofs 6 25))
            = Inr (25, 2) \<and>
     snd (submit_reviews (run reqs_alice) ''u1'' (example_proofs 1 5)) = Inr (5, 0) \<and>
     snd (submit_reviews (fst (submit_reviews (run reqs_alice) ''u1'' (example_proofs 1 5))) ''u1''
          (example_proofs 6 25)) = Inr (20, 2)"
    using submit_reviews_award [of "run reqs_alice" "''u1''" "example_proofs 1 10"
        "run reqs_funded" 10 1 "example_proofs 1 5" "example_proofs 6 25",
        THEN conjunct2, unfolded Let_def, rule_format, OF hc] len
    by simp
  have g: "(1::int) = 10 div 10"
    using submit_reviews_award [of "run reqs_alice" "''u1''" "example_proofs 1 10"
        "run reqs_funded" 10 1 "[]" "[]", THEN conjunct1] call
    by blast
  from call g a b c show ?thesis by blast
qed

section \<open>Reachable databases\<close>

text \<open>
  Claim C5 (no negative balance). No operation should ever make a balance negative.
  The handler \<open>paint_pixel\<close> breaks this when two paint requests of the same user overlap:
  it reads and checks the balance in one statement and debits it in another, with no guard
  on the debit and no transaction around the two, so both requests can pass the check on a
  balance of 1 and both debit. After a registration and ten proofs (balance 1), two paints
  of the user whose reading parts both run before their writing parts leave the balance at
  \<open>- 1\<close>, which \<open>get_balance\<close> then returns.
\<close>

theorem paint_pixel_overlapping_negative_balance:
  "users (database (interleaved (map Whole reqs_funded @
      [PaintSelect 3 4 5 ''u1'', PaintSelect 7 8 9 ''u1'',
       PaintUpdate 200 3 4 5 ''u1'', PaintUpdate 201 7 8 9 ''u1'']))) ''u1'' =
     Some \<lparr>username = ''alice'', paint_balance = - 1, created_at = 100\<rparr> \<and>
   get_balance (database (interleaved (map Whole reqs_funded @
      [PaintSelect 3 4 5 ''u1'', PaintSelect 7 8 9 ''u1'',
       PaintUpdate 200 3 4 5 ''u1'', PaintUpdate 201 7 8 9 ''u1'']))) ''u1'' =
     Inr (''u1'', - 1)"
  by (simp add: interleaved_after_serial run_funded paint_pixel_check_def
        paint_pixel_write_def update_balance_def get_balance_def)

text \<open>
  When the handlers run one after the other, each to its end before the next starts
  (registrations, proof submissions, paints, the four read handlers, and restarts of the
  process, from a fresh database file), every row of \<open>users\<close> has a \<open>paint_balance\<close> of
  at least 0, and so has every balance that \<open>get_balance\<close> returns.
\<close>

lemma balance_never_negative_serial:
  "(\<forall>user_id row. users (run reqs) user_id = Some row \<longrightarrow> 0 \<le> paint_balance row) \<and>
   (\<forall>user_id u b. get_balance (run reqs) user_id = Inr (u, b) \<longrightarrow> 0 \<le> b)"
  using balances_ok_run [of reqs]
  by (auto simp add: balances_ok_def get_balance_def split: option.splits)

text \<open>
  Claim C7 (the grid of \<open>get_canvas\<close>). In the database after any sequence of requests,
  \<open>get_canvas\<close> returns a list of exactly 1024 entries; for every \<open>x\<close> and \<open>y\<close> in
  \<open>[0, 32)\<close> the table holds exactly one row for the cell \<open>(x, y)\<close>, the one the lookup
  by key returns, and the entry at index \<open>y * 32 + x\<close> is that row's colour; and every
  entry is a palette index in \<open>[0, 16)\<close>.
\<close>

theorem get_canvas_row_major:
  "length (get_canvas (run reqs)) = 1024 \<and>
   (\<forall>x y. 0 \<le> x \<and> x < 32 \<and> 0 \<le> y \<and> y < 32 \<longrightarrow>
      (\<exists>r. select_cell (run reqs) x y = Some r \<and>
           filter (\<lambda>r. row_x r = x \<and> row_y r = y) (canvas (run reqs)) = [r] \<and>
           get_canvas (run reqs) ! nat (y * 32 + x) = row_color r)) \<and>
   (\<forall>c\<in>set (get_canvas (run reqs)). 0 \<le> c \<and> c < 16)"
proof (intro conjI allI impI ballI)
  show "length (get_canvas (run reqs)) = 1024" by (rule length_get_canvas)
next
  fix x y :: int
  assume "0 \<le> x \<and> x < 32 \<and> 0 \<le> y \<and> y < 32"
  then show "\<exists>r. select_cell (run reqs) x y = Some r \<and>
           filter (\<lambda>r. row_x r = x \<and> row_y r = y) (canvas (run reqs)) = [r] \<and>
           get_canvas (run reqs) ! nat (y * 32 + x) = row_color r"
    using canvas_ok_get_canvas_cell [OF canvas_ok_run, of x y reqs] by blast
next
  fix c assume "c \<in> set (get_canvas (run reqs))"
  then obtain i where i: "i < 1024" "c = get_canvas (run reqs) ! i"
    by (auto simp add: in_set_conv_nth length_get_canvas)
  define x y where "x = int i mod 32" and "y = int i div 32"
  have xy: "0 \<le> x" "x < 32" "0 \<le> y" "y < 32" "nat (y * 32 + x) = i"
    using i(1) by (simp_all add: x_def y_def)
  from canvas_ok_get_canvas_cell [OF canvas_ok_run xy(1-4), of reqs] xy(5) i(2)
  show "0 \<le> c" "c < 16" by auto
qed

text \<open>After cell \<open>(3, 4)\<close> was painted with colour 5, entry \<open>4 * 32 + 3 = 131\<close> is 5.\<close>

theorem get_canvas_row_major_witness:
  "length (get_canvas (run reqs_painted)) = 1024 \<and>
   map_option row_color (select_cell (run reqs_painted) 3 4) = Some 5 \<and>
   map row_color (filter (\<lambda>r. row_x r = 3 \<and> row_y r = 4) (canvas (run reqs_painted))) = [5] \<and>
   get_canvas (run reqs_painted) ! 131 = 5 \<and>
   get_canvas (run reqs_painted) ! 131 \<in> set (get_canvas (run reqs_painted)) \<and>
   0 \<le> get_canvas (run reqs_painted) ! 131 \<and>
   get_canvas (run reqs_painted) ! 131 < 16"
proof -
  note t = get_canvas_row_major [of reqs_painted]
  from t have len: "length (get_canvas (run reqs_painted)) = 1024" by blast
  have "\<exists>r. select_cell (run reqs_painted) 3 4 = Some r \<and>
          filter (\<lambda>r. row_x r = 3 \<and> row_y r = 4) (canvas (run reqs_painted)) = [r] \<and>
          get_canvas (run reqs_painted) ! nat (4 * 32 + 3) = row_color r"
    by (rule t [THEN conjunct2, THEN conjunct1, rule_format, of 3 4]) simp
  then obtain r where r: "select_cell (run reqs_painted) 3 4 = Some r"
    "filter (\<lambda>r. row_x r = 3 \<and> row_y r = 4) (canvas (run reqs_painted)) = [r]"
    "get_canvas (run reqs_painted) ! nat (4 * 32 + 3) = row_color r"
    by blast
  have "select_cell (run reqs_painted) 3 4 =
          map_option (\<lambda>r. r\<lparr>row_color := 5, last_user_id := Some ''u1'', last_modified := 200\<rparr>)
            (find (\<lambda>r. row_x r = 3 \<and> row_y r = 4) init_rows)"
    by (simp add: select_cell_def run_painted find_update_canvas_same)
  with r(1) have c: "row_color r = 5" by auto
  have n: "nat (4 * 32 + 3) = (131::nat)" by simp
  have m: "get_canvas (run reqs_painted) ! 131 \<in> set (get_canvas (run reqs_painted))"
    using len by simp
  have "0 \<le> get_canvas (run reqs_painted) ! 131 \<and>
    get_canvas (run reqs_painted) ! 131 < 16"
    using m by (rule t [THEN conjunct2, THEN conjunct2, rule_format])
  with len r c n m show ?thesis by simp
qed

section \<open>Validation and frame of \<open>paint_pixel\<close>\<close>

text \<open>
  Claim C8 (validation), as amended. \<open>paint_pixel\<close> raises the 400 exception
  "Coordinates out of bounds" exactly when \<open>x\<close> or \<open>y\<close> is outside \<open>[0, 32)\<close>. It raises the
  400 exception "Invalid color index (0-15)" exactly when \<open>x\<close> and \<open>y\<close> are inside
  \<open>[0, 32)\<close> and the colour is outside \<open>[0, 16)\<close>: the coordinates are checked first. For a
  user that exists with a balance of at least 1, painting cell \<open>(0, 0)\<close> with colour 15
  succeeds.
\<close>

theorem paint_pixel_validation:
  "(snd (paint_pixel s now x y color user_id) =
      Inl (HTTPException 400 ''Coordinates out of bounds'')
      \<longleftrightarrow> \<not> (0 \<le> x \<and> x < 32 \<and> 0 \<le> y \<and> y < 32)) \<and>
   (snd (paint_pixel s now x y color user_id) =
      Inl (HTTPException 400 ''Invalid color index (0-15)'')
      \<longleftrightarrow> (0 \<le> x \<and> x < 32 \<and> 0 \<le> y \<and> y < 32) \<and> \<not> (0 \<le> color \<and> color < 16)) \<and>
   (users s user_id = Some row \<and> 1 \<le> paint_balance row
      \<longrightarrow> snd (paint_pixel s now 0 0 15 user_id) = Inr (0, 0, 15))"
  by (auto simp add: paint_pixel_def split: option.splits)

theorem paint_pixel_validation_witness:
  "snd (paint_pixel (run reqs_funded) 200 32 0 0 ''u1'') =
     Inl (HTTPException 400 ''Coordinates out of bounds'') \<and>
   snd (paint_pixel (run reqs_funded) 200 0 0 16 ''u1'') =
     Inl (HTTPException 400 ''Invalid color index (0-15)'') \<and>
   users (run reqs_funded) ''u1'' =
     Some \<lparr>username = ''alice'', paint_balance = 1, created_at = 100\<rparr> \<and>
   1 \<le> paint_balance \<lparr>username = ''alice'', paint_balance = 1, created_at = 100\<rparr> \<and>
   snd (paint_pixel (run reqs_funded) 200 0 0 15 ''u1'') = Inr (0, 0, 15)"
proof -
  have h: "users (run reqs_funded) ''u1'' =
     Some \<lparr>username = ''alice'', paint_balance = 1, created_at = 100\<rparr>"
    by (simp add: run_funded)
  from h
    paint_pixel_validation [of "run reqs_funded" 200 32 0 0 "''u1''"
      "\<lparr>username = ''alice'', paint_balance = 1, created_at = 100\<rparr>"]
    paint_pixel_validation [of "run reqs_funded" 200 0 0 16 "''u1''"
      "\<lparr>username = ''alice'', paint_balance = 1, created_at = 100\<rparr>"]
  show ?thesis by simp
qed

text \<open>
  The colour 16 is outside \<open>[0, 16)\<close>, but with \<open>x = 32\<close> the call raises the exception
  for the coordinates, not the one for the colour.
\<close>

theorem paint_pixel_invalid_color_counterexample:
  "\<not> (0 \<le> (16::int) \<and> (16::int) < 16) \<and>
   snd (paint_pixel (run reqs_funded) 200 32 0 16 ''u1'') =
     Inl (HTTPException 400 ''Coordinates out of bounds'') \<and>
   snd (paint_pixel (run reqs_funded) 200 32 0 16 ''u1'') \<noteq>
     Inl (HTTPException 400 ''Invalid color index (0-15)'')"
  by (simp add: paint_pixel_def)

text \<open>
  Claim C9 (frame of a successful paint). After a successful \<open>paint_pixel\<close> at \<open>(x, y)\<close>
  the \<open>canvas\<close> table has the same rows with the same keys, every row for another cell is
  unchanged, every other user's row is unchanged, the painter is still in \<open>users\<close> with
  the same \<open>username\<close> and \<open>created_at\<close>, and \<open>review_proofs\<close> is unchanged.
\<close>

theorem paint_pixel_frame:
  assumes "paint_pixel s now x y color user_id = (s', Inr r)"
  shows "length (canvas s') = length (canvas s) \<and>
         (\<forall>i<length (canvas s).
            row_x (canvas s' ! i) = row_x (canvas s ! i) \<and>
            row_y (canvas s' ! i) = row_y (canvas s ! i) \<and>
            ((row_x (canvas s ! i), row_y (canvas s ! i)) \<noteq> (x, y) \<longrightarrow>
               canvas s' ! i = canvas s ! i)) \<and>
         (\<forall>x' y'. (x', y') \<noteq> (x, y) \<longrightarrow> select_cell s' x' y' = select_cell s x' y') \<and>
         (\<forall>u. u \<noteq> user_id \<longrightarrow> users s' u = users s u) \<and>
         (\<exists>row row'. users s user_id = Some row \<and> users s' user_id = Some row' \<and>
            username row' = username row \<and> created_at row' = created_at row) \<and>
         review_proofs s' = review_proofs s"
proof -
  from assms obtain row where row: "users s user_id = Some row"
    and s': "s' = s\<lparr>canvas := update_canvas (canvas s) color user_id now x y,
                    users := update_balance (users s) (- 1) user_id\<rparr>"
    by (auto simp add: paint_pixel_def split: if_splits option.splits)
  have c: "canvas s' = update_canvas (canvas s) color user_id now x y"
    and u: "users s' = update_balance (users s) (- 1) user_id"
    and p: "review_proofs s' = review_proofs s"
    by (simp_all add: s')
  have "length (canvas s') = length (canvas s)"
    by (simp add: c update_canvas_def)
  moreover have "\<forall>i<length (canvas s).
            row_x (canvas s' ! i) = row_x (canvas s ! i) \<and>
            row_y (canvas s' ! i) = row_y (canvas s ! i) \<and>
            ((row_x (canvas s ! i), row_y (canvas s ! i)) \<noteq> (x, y) \<longrightarrow>
               canvas s' ! i = canvas s ! i)"
    by (simp add: c update_canvas_def)
  moreover have "\<forall>x' y'. (x', y') \<noteq> (x, y) \<longrightarrow> select_cell s' x' y' = select_cell s x' y'"
    unfolding select_cell_def c using find_update_canvas_other by blast
  moreover have "\<forall>u. u \<noteq> user_id \<longrightarrow> users s' u = users s u"
    by (simp add: u update_balance_def row)
  moreover have "\<exists>row row'. users s user_id = Some row \<and> users s' user_id = Some row' \<and>
            username row' = username row \<and> created_at row' = created_at row"
    by (simp add: u update_balance_def row)
  ultimately show ?thesis using p by blast
qed

lemma init_rows_0: "init_rows ! 0 = blank_row (0, 0)"
  by (simp add: init_rows_def upto_rec1)

text \<open>
  The paint of the example run at \<open>(3, 4)\<close>: the first row of the table, for cell
  \<open>(0, 0)\<close>, the lookup of cell \<open>(0, 0)\<close>, the row of another user identifier and the
  painter's name and creation time are as before.
\<close>

theorem paint_pixel_frame_witness:
  "paint_pixel (run reqs_funded) 200 3 4 5 ''u1'' = (run reqs_painted, Inr (3, 4, 5)) \<and>
   length (canvas (run reqs_painted)) = length (canvas (run reqs_funded)) \<and>
   0 < length (canvas (run reqs_funded)) \<and>
   (row_x (canvas (run reqs_funded) ! 0), row_y (canvas (run reqs_funded) ! 0)) \<noteq> (3, 4) \<and>
   canvas (run reqs_painted) ! 0 = canvas (run reqs_funded) ! 0 \<and>
   select_cell (run reqs_painted) 0 0 = select_cell (run reqs_funded) 0 0 \<and>
   users (run reqs_painted) ''u2'' = users (run reqs_funded) ''u2'' \<and>
   map_option username (users (run reqs_funded) ''u1'') = Some ''alice'' \<and>
   map_option username (users (run reqs_painted) ''u1'') = Some ''alice'' \<and>
   map_option created_at (users (run reqs_funded) ''u1'') = Some 100 \<and>
   map_option created_at (users (run reqs_painted) ''u1'') = Some 100 \<and>
   review_proofs (run reqs_painted) = review_proofs (run reqs_funded)"
proof -
  have p: "paint_pixel (run reqs_funded) 200 3 4 5 ''u1'' = (run reqs_painted, Inr (3, 4, 5))"
    by (simp add: run_funded run_painted paint_pixel_def update_balance_def)
  note t = paint_pixel_frame [OF p]
  have len: "0 < length (canvas (run reqs_funded))"
    by (simp add: canvas_ok_length [OF canvas_ok_run])
  have key: "(row_x (canvas (run reqs_funded) ! 0), row_y (canvas (run reqs_funded) ! 0)) \<noteq> (3, 4)"
    by (simp add: run_funded init_rows_0 blank_row_def)
  have t1: "length (canvas (run reqs_painted)) = length (canvas (run reqs_funded))"
    by (rule t [THEN conjunct1])
  have t2: "canvas (run reqs_painted) ! 0 = canvas (run reqs_funded) ! 0"
    using t [THEN conjunct2, THEN conjunct1, rule_format, OF len] key by blast
  have t3: "select_cell (run reqs_painted) 0 0 = select_cell (run reqs_funded) 0 0"
    by (rule t [THEN conjunct2, THEN conjunct2, THEN conjunct1, rule_format]) simp
  have t4: "users (run reqs_painted) ''u2'' = users (run reqs_funded) ''u2''"
    by (rule t [THEN conjunct2, THEN conjunct2, THEN conjunct2, THEN conjunct1, rule_format])
       simp
  have t5: "review_proofs (run reqs_painted) = review_proofs (run reqs_funded)"
    using t by blast
  have n: "map_option username (users (run reqs_funded) ''u1'') = Some ''alice''"
    "map_option username (users (run reqs_painted) ''u1'') = Some ''alice''"
    "map_option created_at (users (run reqs_funded) ''u1'') = Some 100"
    "map_option created_at (users (run reqs_painted) ''u1'') = Some 100"
    by (simp_all add: run_funded run_painted)
  from p t1 len key t2 t3 t4 n t5 show ?thesis by blast
qed

end
